theory Spec2Isabelle
  imports Main
begin

section \<open>JavaScript values and errors\<close>

text \<open>
  Errors that the code raises or that a middleware throws. \<open>Error\<close>, \<open>TypeError\<close> and
  \<open>AssertionError\<close> carry their message; \<open>Thrown\<close> stands for any other thrown value.
\<close>

datatype jserror = Error string | TypeError string | AssertionError string | Thrown nat

text \<open>The settled state of a promise. Koa middleware resolve to no value.\<close>

datatype outcome = Fulfilled | Rejected jserror

section \<open>koa-compose: the middleware pipeline\<close>

text \<open>
  A middleware is a JavaScript function \<open>(context, next) => ...\<close>. Its behaviour is
  given as the tree of what it does with the two things it is handed: it reads or
  mutates the context, it calls \<open>next\<close> and goes on once the returned promise has
  settled (with the outcome in hand, so it may catch, ignore or pass on a rejection),
  and at the end it returns (a value or a settled promise) or throws.
  The closure variable \<open>index\<close> of the composed function is out of its reach, as in
  the source. Promises are taken in the order in which a single request settles them:
  the pipeline of one request is sequential.
\<close>

datatype 'c prog =
    Return outcome
  | Throw jserror
  | Upd "'c \<Rightarrow> 'c" "'c prog"
  | Read "'c \<Rightarrow> 'c prog"
  | Next "outcome \<Rightarrow> 'c prog"

text \<open>The values that can be passed where compose expects an array of functions.\<close>

datatype 'c jv =
    JUndefined
  | JNull
  | JBool bool
  | JNum int
  | JStr string
  | JObject
  | JFunc "'c prog"
  | JArray "'c jv list"

fun truthy :: "'c jv \<Rightarrow> bool" where
  "truthy JUndefined = False"
| "truthy JNull = False"
| "truthy (JBool b) = b"
| "truthy (JNum n) = (n \<noteq> 0)"
| "truthy (JStr s) = (s \<noteq> [])"
| "truthy JObject = True"
| "truthy (JFunc p) = True"
| "truthy (JArray xs) = True"

fun is_function :: "'c jv \<Rightarrow> bool" where
  "is_function (JFunc p) = True"
| "is_function v = False"

text \<open>
  The state of one invocation of the composed function: the closure variable
  \<open>index\<close>, the context object, and a log of the indices whose function dispatch
  has called. The log is not in the source; nothing reads it.
\<close>

record 'c st =
  index :: int
  ctx :: 'c
  invoked :: "nat list"

text \<open>What a call \<open>fn(context, next)\<close> comes back with.\<close>

datatype completion = Returned outcome | Threw jserror

primrec run :: "'c prog \<Rightarrow> ('c st \<Rightarrow> outcome \<times> 'c st) \<Rightarrow> 'c st \<Rightarrow> completion \<times> 'c st" where
  "run (Return r) nxt s = (Returned r, s)"
| "run (Throw e) nxt s = (Threw e, s)"
| "run (Upd f p) nxt s = run p nxt (s\<lparr>ctx := f (ctx s)\<rparr>)"
| "run (Read g) nxt s = run (g (ctx s)) nxt s"
| "run (Next k) nxt s = (case nxt s of (r, s') \<Rightarrow> run (k r) nxt s')"

text \<open>\<open>middleware[i]\<close>: undefined out of range.\<close>

definition at_index :: "'c jv list \<Rightarrow> nat \<Rightarrow> 'c jv" where
  "at_index middleware i = (if i < length middleware then middleware ! i else JUndefined)"

text \<open>\<open>try { return Promise.resolve(fn(...)) } catch (err) { return Promise.reject(err) }\<close>\<close>

fun settle :: "completion \<times> 'c st \<Rightarrow> outcome \<times> 'c st" where
  "settle (Returned r, s) = (r, s)"
| "settle (Threw e, s) = (Rejected e, s)"

function dispatch :: "'c jv list \<Rightarrow> 'c jv \<Rightarrow> nat \<Rightarrow> 'c st \<Rightarrow> outcome \<times> 'c st" where
  "dispatch middleware nxt i s =
    (if int i \<le> index s then (Rejected (Error ''next() called multiple times''), s)
     else
       let s1 = s\<lparr>index := int i\<rparr>;
           fn = (if i = length middleware then nxt else at_index middleware i)
       in if \<not> truthy fn then (Fulfilled, s1)
          else (case fn of
                  JFunc p \<Rightarrow>
                    settle (run p (dispatch middleware nxt (Suc i))
                                  (s1\<lparr>invoked := invoked s1 @ [i]\<rparr>))
                | _ \<Rightarrow> (Rejected (TypeError ''fn is not a function''), s1)))"
  by pat_completeness auto
termination
  by (relation "measure (\<lambda>(middleware, nxt, i, s). Suc (length middleware) - i)")
     (auto simp: at_index_def split: if_splits)

text \<open>The loop \<open>for (const fn of middleware)\<close> of compose: the first offender throws.\<close>

fun check_functions :: "'c jv list \<Rightarrow> jserror option" where
  "check_functions [] = None"
| "check_functions (fn # rest) =
    (if \<not> is_function fn then Some (TypeError ''Middleware must be composed of functions!'')
     else check_functions rest)"

text \<open>The function that compose returns: a fresh \<open>index = -1\<close> for each invocation.\<close>

definition composed :: "'c jv list \<Rightarrow> 'c \<Rightarrow> 'c jv \<Rightarrow> outcome \<times> 'c st" where
  "composed middleware context nxt =
     dispatch middleware nxt 0 \<lparr>index = - 1, ctx = context, invoked = []\<rparr>"

definition compose :: "'c jv \<Rightarrow> jserror + ('c \<Rightarrow> 'c jv \<Rightarrow> outcome \<times> 'c st)" where
  "compose middleware =
    (case middleware of
       JArray fns \<Rightarrow>
         (case check_functions fns of
            Some err \<Rightarrow> Inl err
          | None \<Rightarrow> Inr (composed fns))
     | _ \<Rightarrow> Inl (TypeError ''Middleware stack must be an array!''))"


subsection \<open>The course of one invocation\<close>

text \<open>
  What the theorems say of a middleware is said of what it does in the invocation
  at hand, with the context it is given there and the outcome its \<open>next\<close> has there.

  \<open>first_call p c\<close> follows \<open>p\<close>, started on the context \<open>c\<close>, up to its first call of
  \<open>next\<close>: it gives the context at that call and what \<open>p\<close> goes on to do with the
  outcome, and \<open>None\<close> when \<open>p\<close> ends without calling \<open>next\<close>.
\<close>

primrec first_call :: "'c prog \<Rightarrow> 'c \<Rightarrow> ('c \<times> (outcome \<Rightarrow> 'c prog)) option" where
  "first_call (Return r) c = None"
| "first_call (Throw e) c = None"
| "first_call (Upd f p) c = first_call p (f c)"
| "first_call (Read g) c = first_call (g c) c"
| "first_call (Next k) c = Some (c, k)"

text \<open>
  \<open>reached j c\<close> is the state in which \<open>dispatch(j)\<close> is called for the first time, the
  context being \<open>c\<close> by then: the functions below \<open>j\<close> have been called, in order.
  The function at \<open>j\<close> is then called in the state \<open>reached (j + 1) c\<close>.
\<close>

definition reached :: "nat \<Rightarrow> 'c \<Rightarrow> 'c st" where
  "reached j c = \<lparr>index = int j - 1, ctx = c, invoked = [0..<j]\<rparr>"

text \<open>
  \<open>entry middleware k c\<close> is the context with which \<open>dispatch(k)\<close> is first called in
  the invocation that starts on the context \<open>c\<close>: each function below \<open>k\<close> has run up
  to its first call of \<open>next\<close>. It is \<open>None\<close> when one of them ends before calling
  \<open>next\<close>, so that \<open>dispatch(k)\<close> is not called that way.
\<close>

fun entry :: "'c jv list \<Rightarrow> nat \<Rightarrow> 'c \<Rightarrow> 'c option" where
  "entry middleware 0 c = Some c"
| "entry middleware (Suc j) c =
     (case entry middleware j c of
        None \<Rightarrow> None
      | Some cj \<Rightarrow>
          (case at_index middleware j of
             JFunc p \<Rightarrow> map_option fst (first_call p cj)
           | _ \<Rightarrow> None))"

text \<open>
  \<open>passes_on middleware nxt c j\<close>: in the invocation that starts on \<open>c\<close>, the function
  at \<open>j\<close> is called and calls \<open>next\<close>, and if the promise of that call is rejected,
  its own promise is rejected with the same error (it returns or rethrows it).
\<close>

definition passes_on :: "'c jv list \<Rightarrow> 'c jv \<Rightarrow> 'c \<Rightarrow> nat \<Rightarrow> bool" where
  "passes_on middleware nxt c j =
     (case entry middleware j c of
        None \<Rightarrow> False
      | Some cj \<Rightarrow>
          (case at_index middleware j of
             JFunc p \<Rightarrow>
               (case first_call p cj of
                  None \<Rightarrow> False
                | Some (c', k) \<Rightarrow>
                    (case dispatch middleware nxt (Suc j) (reached (Suc j) c') of
                       (Fulfilled, s') \<Rightarrow> True
                     | (Rejected e, s') \<Rightarrow>
                         fst (settle (run (k (Rejected e)) (dispatch middleware nxt (Suc j)) s'))
                           = Rejected e))
           | _ \<Rightarrow> False))"

text \<open>
  \<open>repeats_next middleware nxt c k\<close>: in the invocation that starts on \<open>c\<close>, the
  function at \<open>k\<close> is called, calls \<open>next\<close>, goes on with the outcome of that call to
  call \<open>next\<close> a second time, and its own promise is rejected with the error of the
  second call.
\<close>

definition repeats_next :: "'c jv list \<Rightarrow> 'c jv \<Rightarrow> 'c \<Rightarrow> nat \<Rightarrow> bool" where
  "repeats_next middleware nxt c k =
     (case entry middleware k c of
        None \<Rightarrow> False
      | Some ck \<Rightarrow>
          (case at_index middleware k of
             JFunc p \<Rightarrow>
               (case first_call p ck of
                  None \<Rightarrow> False
                | Some (c1, k1) \<Rightarrow>
                    (case dispatch middleware nxt (Suc k) (reached (Suc k) c1) of
                       (r1, s1) \<Rightarrow>
                         (case first_call (k1 r1) (ctx s1) of
                            None \<Rightarrow> False
                          | Some (c2, k2) \<Rightarrow>
                              fst (settle (run (k2 (Rejected (Error ''next() called multiple times'')))
                                               (dispatch middleware nxt (Suc k))
                                               (s1\<lparr>ctx := c2\<rparr>)))
                                = Rejected (Error ''next() called multiple times''))))
           | _ \<Rightarrow> False))"



text \<open>Sample middleware, as they would be written in JavaScript.\<close>

text \<open>\<^verbatim>\<open>async (ctx, next) => { await next(); try { await next() } catch (e) {} }\<close>\<close>

definition calls_next_twice :: "unit prog" where
  "calls_next_twice = Next (\<lambda>first. Next (\<lambda>second. Return Fulfilled))"



text \<open>\<^verbatim>\<open>(ctx, next) => next()\<close>\<close>

definition returns_next :: "unit prog" where
  "returns_next = Next Return"

text \<open>\<^verbatim>\<open>async (ctx, next) => { await next(); await next() }\<close>\<close>

definition awaits_twice :: "unit prog" where
  "awaits_twice = Next (case_outcome (Next Return) (\<lambda>e. Return (Rejected e)))"


text \<open>\<^verbatim>\<open>(ctx, next) => {}\<close>\<close>

definition noop :: "unit prog" where
  "noop = Return Fulfilled"




section \<open>Strings\<close>

text \<open>
  A JavaScript string is a list of code units; \<open>char\<close> covers the code units below 256.
\<close>

definition toLowerCase_char :: "char \<Rightarrow> char" where
  "toLowerCase_char ch =
     (let n = (of_char ch :: nat) in
      if (65 \<le> n \<and> n \<le> 90) \<or> (192 \<le> n \<and> n \<le> 222 \<and> n \<noteq> 215)
      then char_of (n + 32) else ch)"

definition toLowerCase :: "string \<Rightarrow> string" where
  "toLowerCase s = map toLowerCase_char s"

text \<open>The class \<open>\s\<close> of a regular expression, on code units below 256.\<close>

definition is_space :: "char \<Rightarrow> bool" where
  "is_space ch = ((of_char ch :: nat) \<in> {9, 10, 11, 12, 13, 32, 160})"

text \<open>\<open>/^\s*</.test(val)\<close>\<close>

definition html_like :: "string \<Rightarrow> bool" where
  "html_like val = (case dropWhile is_space val of [] \<Rightarrow> False | ch # _ \<Rightarrow> ch = CHR ''<'')"

text \<open>\<open>Buffer.byteLength(str)\<close>: the length of the UTF-8 encoding.\<close>

definition byteLength :: "string \<Rightarrow> nat" where
  "byteLength str = sum_list (map (\<lambda>ch. if (of_char ch :: nat) < 128 then 1 else 2) str)"

text \<open>The decimal digits of an integer.\<close>

fun string_of_nat :: "nat \<Rightarrow> string" where
  "string_of_nat n =
     (if n < 10 then [''0123456789'' ! n]
      else string_of_nat (n div 10) @ [''0123456789'' ! (n mod 10)])"

definition string_of_int :: "int \<Rightarrow> string" where
  "string_of_int k = (if k < 0 then CHR ''-'' # string_of_nat (nat (- k)) else string_of_nat (nat k))"

section \<open>The context: raw request and response, the facades' own fields\<close>

text \<open>A header value of the outgoing response: a string or an array of strings.\<close>

datatype hval = HStr string | HArr "string list"

text \<open>
  A response body: absent (\<open>undefined\<close> or \<open>null\<close>), a string, a Buffer (its bytes), an
  object with a \<open>pipe\<close> function (\<open>BStream\<close>, known by a handle; whether it is an
  instance of \<open>Stream\<close> is not decided here), or any other value, which is sent as JSON.
\<close>

datatype body =
    BUndefined
  | BNull
  | BBool bool
  | BNum int
  | BString string
  | BBuffer "nat list"
  | BStream nat
  | BObject nat

text \<open>Listeners that assigning a stream body registers.\<close>

datatype listener = DestroyOnFinish nat | ErrorHandler nat

text \<open>What has been handed to the transport response: \<open>res.end(data)\<close>, \<open>body.pipe(res)\<close>.\<close>

datatype chunk = End "body option" | Piped nat

text \<open>
  One context with what its facades reach: of the raw request the headers (field
  names in lower case), the method and the major HTTP version; of the raw response
  the status code and message, the headers (\<open>getHeaders()\<close>, keyed in lower case),
  \<open>headersSent\<close>, \<open>finished\<close>, the socket (absent, or its \<open>writable\<close> flag), what
  has been written and the listeners registered; the response facade's \<open>_body\<close> and
  \<open>_explicitStatus\<close>; and \<open>ctx.respond\<close> (absent unless a middleware has set it).
\<close>

record kctx =
  req_headers :: "string \<rightharpoonup> string"
  req_method :: string
  httpVersionMajor :: nat
  statusCode :: int
  statusMessage :: "string option"
  res_headers :: "string \<rightharpoonup> hval"
  headersSent :: bool
  finished :: bool
  socket :: "bool option"
  written :: "chunk list"
  listeners :: "listener list"
  stored_body :: body
  explicitStatus :: bool
  respond_flag :: "bool option"

text \<open>
  The modules the code requires and that are not part of it: the tables of the
  \<open>statuses\<close> package (\<open>statuses[code]\<close>, \<open>statuses.redirect[code]\<close>),
  \<open>cache-content-type\<close>, the negotiator of \<open>accepts\<close>, \<open>escape-html\<close>,
  \<open>koa-is-json\<close>, \<open>JSON.stringify\<close>, the abstract equality \<open>==\<close> of a primitive
  value with a stream object (it goes through the object's conversion to a primitive),
  \<open>instanceof Stream\<close> for an object with a \<open>pipe\<close> function, and the exponent form in
  which a number of 1e21 and above is printed.
\<close>

record lib =
  statuses :: "int \<Rightarrow> string option"
  redirect_code :: "int \<Rightarrow> bool"
  getType :: "string \<Rightarrow> string option"
  accepts :: "(string \<rightharpoonup> string) \<Rightarrow> string list \<Rightarrow> string option"
  escape :: "string \<Rightarrow> string"
  isJSON :: "body \<Rightarrow> bool"
  stringify :: "body \<Rightarrow> string"
  loosely_equal :: "body \<Rightarrow> nat \<Rightarrow> bool"
  instanceof_Stream :: "nat \<Rightarrow> bool"
  exponent_form :: "int \<Rightarrow> string"

text \<open>
  \<open>String(n)\<close>, and \<open>n\<close> in a template literal, for a number with an integer value:
  its digits below 1e21, the exponent form from there on.
\<close>

definition number_string :: "lib \<Rightarrow> int \<Rightarrow> string" where
  "number_string L k = (if 10 ^ 21 \<le> \<bar>k\<bar> then exponent_form L k else string_of_int k)"

text \<open>
  Modelled from the spec: the table \<open>statuses.empty\<close> is not under src/; the spec's
  glossary gives the body-forbidden status codes as 204, 205 and 304.
\<close>

definition statuses_empty :: "int \<Rightarrow> bool" where
  "statuses_empty code = (code = 204 \<or> code = 205 \<or> code = 304)"

text \<open>\<open>null == val\<close>\<close>

fun nullish :: "body \<Rightarrow> bool" where
  "nullish BUndefined = True"
| "nullish BNull = True"
| "nullish v = False"

text \<open>The truth value of a body, as in \<open>this.body && ...\<close>.\<close>

fun truthy_body :: "body \<Rightarrow> bool" where
  "truthy_body BUndefined = False"
| "truthy_body BNull = False"
| "truthy_body (BBool b) = b"
| "truthy_body (BNum n) = (n \<noteq> 0)"
| "truthy_body (BString s) = (s \<noteq> [])"
| "truthy_body (BBuffer bs) = True"
| "truthy_body (BStream h) = True"
| "truthy_body (BObject h) = True"

text \<open>\<open>original != val\<close> where \<open>val\<close> is the stream with handle \<open>h\<close>.\<close>

fun differs_from_stream :: "lib \<Rightarrow> body \<Rightarrow> nat \<Rightarrow> bool" where
  "differs_from_stream L (BStream h') h = (h' \<noteq> h)"
| "differs_from_stream L (BBuffer bs) h = True"
| "differs_from_stream L (BObject h') h = True"
| "differs_from_stream L original h = (\<not> loosely_equal L original h)"

text \<open>The truth value of \<open>this.header['content-type']\<close>.\<close>

fun header_truthy :: "hval option \<Rightarrow> bool" where
  "header_truthy None = False"
| "header_truthy (Some (HStr s)) = (s \<noteq> [])"
| "header_truthy (Some (HArr xs)) = True"

subsection \<open>response.js\<close>

text \<open>
  The transport's \<open>res.setHeader\<close> throws a TypeError when the value holds a character
  that is not a tab and lies outside 0x20..0x7e and 0x80..0xff.
\<close>

definition legal_header_char :: "char \<Rightarrow> bool" where
  "legal_header_char ch =
     (let n = (of_char ch :: nat) in n = 9 \<or> (32 \<le> n \<and> n \<le> 126) \<or> 128 \<le> n)"

definition legal_header_value :: "hval \<Rightarrow> bool" where
  "legal_header_value val =
     (case val of
        HStr s \<Rightarrow> list_all legal_header_char s
      | HArr xs \<Rightarrow> list_all (list_all legal_header_char) xs)"

text \<open>
  \<open>set(field, val)\<close> with two arguments, \<open>val\<close> already turned into strings, for a value
  that \<open>res.setHeader\<close> accepts: the content types that \<open>getType\<close> yields and the
  digits of a length are written this way.
\<close>

definition set_field :: "string \<Rightarrow> hval \<Rightarrow> kctx \<Rightarrow> kctx" where
  "set_field field val c =
     (if headersSent c then c
      else c\<lparr>res_headers := (res_headers c)(toLowerCase field \<mapsto> val)\<rparr>)"

text \<open>
  \<open>set(field, val)\<close> for any value: nothing happens once the headers are sent, and
  \<open>res.setHeader\<close> throws for a value it refuses.
\<close>

definition set_checked :: "string \<Rightarrow> hval \<Rightarrow> kctx \<Rightarrow> jserror + kctx" where
  "set_checked field val c =
     (if headersSent c then Inr c
      else if \<not> legal_header_value val
        then Inl (TypeError (''Invalid character in header content ['' @ CHR 0x22 # field
                             @ CHR 0x22 # '']''))
      else Inr (set_field field val c))"

definition remove_field :: "string \<Rightarrow> kctx \<Rightarrow> kctx" where
  "remove_field field c =
     (if headersSent c then c
      else c\<lparr>res_headers := (res_headers c)(toLowerCase field := None)\<rparr>)"

definition set_type :: "lib \<Rightarrow> string \<Rightarrow> kctx \<Rightarrow> kctx" where
  "set_type L type c =
     (case getType L type of
        Some t \<Rightarrow> (if t \<noteq> [] then set_field ''Content-Type'' (HStr t) c
                   else remove_field ''Content-Type'' c)
      | None \<Rightarrow> remove_field ''Content-Type'' c)"

definition set_length :: "nat \<Rightarrow> kctx \<Rightarrow> kctx" where
  "set_length n c = set_field ''Content-Length'' (HStr (string_of_nat n)) c"

text \<open>
  The setters of \<open>status\<close> and \<open>body\<close> call each other. The status code is a number
  with an integer value here, so the first assertion of the setter
  (\<open>Number.isInteger(code)\<close>) holds.
\<close>

function set_status :: "lib \<Rightarrow> int \<Rightarrow> kctx \<Rightarrow> jserror + kctx"
  and set_body :: "lib \<Rightarrow> body \<Rightarrow> kctx \<Rightarrow> jserror + kctx" where
  "set_status L code c =
     (if headersSent c then Inr c
      else if \<not> (100 \<le> code \<and> code \<le> 999)
        then Inl (AssertionError (''invalid status code: '' @ number_string L code))
      else
        let c1 = c\<lparr>explicitStatus := True, statusCode := code\<rparr>;
            c2 = (if httpVersionMajor c1 < 2 then c1\<lparr>statusMessage := statuses L code\<rparr> else c1)
        in if truthy_body (stored_body c2) \<and> statuses_empty code then set_body L BNull c2
           else Inr c2)"
| "set_body L val c =
     (let original = stored_body c;
          c1 = c\<lparr>stored_body := val\<rparr>
      in if nullish val then
           (case (if \<not> statuses_empty (statusCode c1) then set_status L 204 c1 else Inr c1) of
              Inl err \<Rightarrow> Inl err
            | Inr c2 \<Rightarrow>
                Inr (remove_field ''Transfer-Encoding'' (remove_field ''Content-Length''
                      (remove_field ''Content-Type'' c2))))
         else
           (case (if \<not> explicitStatus c1 then set_status L 200 c1 else Inr c1) of
              Inl err \<Rightarrow> Inl err
            | Inr c2 \<Rightarrow>
                let setType = \<not> header_truthy (res_headers c2 ''content-type'') in
                (case val of
                   BString s \<Rightarrow>
                     Inr (set_length (byteLength s)
                           (if setType then set_type L (if html_like s then ''html'' else ''text'') c2
                            else c2))
                 | BBuffer bs \<Rightarrow>
                     Inr (set_length (length bs) (if setType then set_type L ''bin'' c2 else c2))
                 | BStream h \<Rightarrow>
                     let c3 = c2\<lparr>listeners := listeners c2 @ [DestroyOnFinish h, ErrorHandler h]\<rparr>;
                         c4 = (if \<not> nullish original \<and> differs_from_stream L original h
                               then remove_field ''Content-Length'' c3 else c3)
                     in Inr (if setType then set_type L ''bin'' c4 else c4)
                 | _ \<Rightarrow> Inr (set_type L ''json'' (remove_field ''Content-Length'' c2)))))"
  by pat_completeness auto
termination
  by (relation "measure (\<lambda>x. case x of
         Inl (L, code, c) \<Rightarrow> (if truthy_body (stored_body c) \<and> statuses_empty code then 1 else 0)
       | Inr (L, val, c) \<Rightarrow> (if nullish val \<and> statuses_empty (statusCode c) then 0 else 1))")
     (auto simp: statuses_empty_def split: if_splits elim: nullish.elims(2))


text \<open>\<open>get(field)\<close> of the request; Referrer and Referer are interchangeable.\<close>

definition or_empty :: "string option \<Rightarrow> string" where
  "or_empty v = (case v of None \<Rightarrow> [] | Some s \<Rightarrow> s)"

definition req_get :: "string \<Rightarrow> kctx \<Rightarrow> string" where
  "req_get field c =
     (let f = toLowerCase field in
      if f = ''referer'' \<or> f = ''referrer'' then
        (if or_empty (req_headers c ''referrer'') \<noteq> [] then or_empty (req_headers c ''referrer'')
         else or_empty (req_headers c ''referer''))
      else or_empty (req_headers c f))"

text \<open>
  Modelled from the spec: context.js is not under src/. The Context binds one Request
  and one Response facade; \<open>ctx.get\<close> and \<open>ctx.accepts\<close> are those of the request,
  \<open>ctx.writable\<close>, \<open>ctx.body\<close>, \<open>ctx.status\<close>, \<open>ctx.message\<close>, \<open>ctx.type\<close> and
  \<open>ctx.length\<close> those of the response.
\<close>

definition ctx_get :: "string \<Rightarrow> kctx \<Rightarrow> string" where
  "ctx_get field c = req_get field c"

definition ctx_accepts :: "lib \<Rightarrow> string list \<Rightarrow> kctx \<Rightarrow> string option" where
  "ctx_accepts L types c = accepts L (req_headers c) types"

text \<open>\<open>this.ctx.get('Referrer') || alt || '/'\<close>; \<open>alt\<close> may be left out.\<close>

definition back_target :: "string option \<Rightarrow> kctx \<Rightarrow> string" where
  "back_target alt c =
     (if ctx_get ''Referrer'' c \<noteq> [] then ctx_get ''Referrer'' c
      else if or_empty alt \<noteq> [] then or_empty alt
      else ''/'')"

text \<open>\<open>redirect(url, alt)\<close>\<close>

definition redirect :: "lib \<Rightarrow> string \<Rightarrow> string option \<Rightarrow> kctx \<Rightarrow> jserror + kctx" where
  "redirect L url alt c =
     (let url1 = (if url = ''back'' then back_target alt c else url)
      in case set_checked ''Location'' (HStr url1) c of
           Inl err \<Rightarrow> Inl err
         | Inr c1 \<Rightarrow>
             (case (if \<not> redirect_code L (statusCode c1) then set_status L 302 c1 else Inr c1) of
                Inl err \<Rightarrow> Inl err
              | Inr c2 \<Rightarrow>
                  (if or_empty (ctx_accepts L [''html''] c2) \<noteq> [] then
                     let url2 = escape L url1;
                         c3 = set_type L ''text/html; charset=utf-8'' c2
                     in set_body L (BString (''Redirecting to <a href='' @ CHR 0x22 # url2
                                             @ CHR 0x22 # ''>'' @ url2 @ ''</a>.'')) c3
                   else
                     let c3 = set_type L ''text/plain; charset=utf-8'' c2
                     in set_body L (BString (''Redirecting to '' @ url1 @ ''.'')) c3)))"

text \<open>The getter \<open>writable\<close> of the response.\<close>

definition writable :: "kctx \<Rightarrow> bool" where
  "writable c =
     (if finished c then False
      else case socket c of None \<Rightarrow> True | Some w \<Rightarrow> w)"

text \<open>\<open>this.res.statusMessage || statuses[this.status]\<close>\<close>

definition message :: "lib \<Rightarrow> kctx \<Rightarrow> string option" where
  "message L c =
     (if or_empty (statusMessage c) \<noteq> [] then statusMessage c else statuses L (statusCode c))"

subsection \<open>application.js: the terminal respond step\<close>

text \<open>\<open>res.end(data)\<close> and \<open>body.pipe(res)\<close> on the transport response.\<close>

definition res_end :: "body option \<Rightarrow> kctx \<Rightarrow> kctx" where
  "res_end data c = c\<lparr>written := written c @ [End data], headersSent := True, finished := True\<rparr>"

definition pipe :: "nat \<Rightarrow> kctx \<Rightarrow> kctx" where
  "pipe h c = c\<lparr>written := written c @ [Piped h]\<rparr>"

text \<open>
  The last lines of respond: \<open>body = JSON.stringify(body)\<close>, the length when the
  headers are not sent, \<open>res.end(body)\<close>.
\<close>

definition end_json :: "lib \<Rightarrow> kctx \<Rightarrow> kctx" where
  "end_json L c =
     (let text = stringify L (stored_body c)
      in res_end (Some (BString text))
           (if \<not> headersSent c then set_length (byteLength text) c else c))"

definition respond :: "lib \<Rightarrow> kctx \<Rightarrow> jserror + kctx" where
  "respond L c =
     (if respond_flag c = Some False then Inr c
      else if \<not> writable c then Inr c
      else
        let body0 = stored_body c;
            code = statusCode c
        in if statuses_empty code then
             (case set_body L BNull c of
                Inl err \<Rightarrow> Inl err
              | Inr c1 \<Rightarrow> Inr (res_end None c1))
           else if req_method c = ''HEAD'' then
             Inr (res_end None
                   (if \<not> headersSent c \<and> isJSON L body0
                    then set_length (byteLength (stringify L body0)) c else c))
           else if nullish body0 then
             (let text = (if 2 \<le> httpVersionMajor c then number_string L code
                          else if or_empty (message L c) \<noteq> [] then or_empty (message L c)
                          else number_string L code)
              in Inr (res_end (Some (BString text))
                       (if \<not> headersSent c
                        then set_length (byteLength text) (set_type L ''text'' c) else c)))
           else
             (case body0 of
                BBuffer bs \<Rightarrow> Inr (res_end (Some body0) c)
              | BString s \<Rightarrow> Inr (res_end (Some body0) c)
              | BStream h \<Rightarrow>
                  (if instanceof_Stream L h then Inr (pipe h c) else Inr (end_json L c))
              | _ \<Rightarrow> Inr (end_json L c)))"

subsection \<open>Observations and samples\<close>

text \<open>One assignment after another; a throw of the first ends the sequence.\<close>

definition and_then :: "jserror + 'a \<Rightarrow> ('a \<Rightarrow> jserror + 'b) \<Rightarrow> jserror + 'b" where
  "and_then r f = (case r of Inl err \<Rightarrow> Inl err | Inr x \<Rightarrow> f x)"

definition header_of :: "string \<Rightarrow> kctx \<Rightarrow> hval option" where
  "header_of name c = res_headers c name"

text \<open>The body with the Content-Type, Content-Length and Transfer-Encoding headers.\<close>

definition body_and_headers :: "kctx \<Rightarrow> body \<times> hval option \<times> hval option \<times> hval option" where
  "body_and_headers c =
     (stored_body c, header_of ''content-type'' c, header_of ''content-length'' c,
      header_of ''transfer-encoding'' c)"

text \<open>The status code with the same three headers.\<close>

definition status_and_headers :: "kctx \<Rightarrow> int \<times> hval option \<times> hval option \<times> hval option" where
  "status_and_headers c =
     (statusCode c, header_of ''content-type'' c, header_of ''content-length'' c,
      header_of ''transfer-encoding'' c)"

text \<open>The header that \<open>this.type = type\<close> leaves: none when the type does not resolve.\<close>

definition resolved_type :: "lib \<Rightarrow> string \<Rightarrow> hval option" where
  "resolved_type L type =
     (case getType L type of None \<Rightarrow> None | Some t \<Rightarrow> if t = [] then None else Some (HStr t))"

text \<open>
  A sample of the required modules, for the examples below: a few entries of each
  table, a negotiator that knows the header \<open>Accept: text/html\<close> and takes the first
  type offered when the request has no Accept header, and the five characters that
  escape-html replaces.
\<close>

fun escape_char :: "char \<Rightarrow> string" where
  "escape_char ch =
     (if ch = CHR ''&'' then ''&amp;''
      else if ch = CHR ''<'' then ''&lt;''
      else if ch = CHR ''>'' then ''&gt;''
      else if ch = CHR 0x22 then ''&quot;''
      else if ch = CHR 0x27 then ''&#39;''
      else [ch])"

definition sample_lib :: lib where
  "sample_lib = \<lparr>
     statuses = (\<lambda>code. if code = 200 then Some ''OK''
                        else if code = 204 then Some ''No Content''
                        else if code = 302 then Some ''Found''
                        else if code = 404 then Some ''Not Found''
                        else None),
     redirect_code = (\<lambda>code. code \<in> {300, 301, 302, 303, 305, 307, 308}),
     getType = (\<lambda>type.
        if type = ''html'' \<or> type = ''text/html; charset=utf-8''
          then Some ''text/html; charset=utf-8''
        else if type = ''text'' \<or> type = ''text/plain; charset=utf-8''
          then Some ''text/plain; charset=utf-8''
        else if type = ''json'' then Some ''application/json; charset=utf-8''
        else if type = ''bin'' then Some ''application/octet-stream''
        else None),
     accepts = (\<lambda>headers types.
        case headers ''accept'' of
          None \<Rightarrow> (case types of [] \<Rightarrow> None | t # ts \<Rightarrow> Some t)
        | Some a \<Rightarrow> if a = ''text/html'' \<and> ''html'' \<in> set types then Some ''html'' else None),
     escape = (\<lambda>s. concat (map escape_char s)),
     isJSON = (\<lambda>b. truthy_body b \<and> (case b of BString s \<Rightarrow> False | BBuffer bs \<Rightarrow> False
                                              | BStream h \<Rightarrow> False | _ \<Rightarrow> True)),
     stringify = (\<lambda>b. ''{}''),
     loosely_equal = (\<lambda>b h. False),
     instanceof_Stream = (\<lambda>h. True),
     exponent_form = (\<lambda>k. ''1e+21'')\<rparr>"

text \<open>
  A context as createContext and handleRequest leave it, for a request
  \<open>GET\<close> with \<open>Referrer: http://x\<close> and \<open>Accept: text/html\<close>.
\<close>

definition fresh_ctx :: kctx where
  "fresh_ctx = \<lparr>
     req_headers = [''referrer'' \<mapsto> ''http://x'', ''accept'' \<mapsto> ''text/html''],
     req_method = ''GET'',
     httpVersionMajor = 1,
     statusCode = 404,
     statusMessage = None,
     res_headers = Map.empty,
     headersSent = False,
     finished = False,
     socket = Some True,
     written = [],
     listeners = [],
     stored_body = BUndefined,
     explicitStatus = False,
     respond_flag = None\<rparr>"

text \<open>The same after \<open>flushHeaders()\<close>.\<close>

definition flushed_ctx :: kctx where
  "flushed_ctx = fresh_ctx\<lparr>headersSent := True\<rparr>"

text \<open>After \<open>ctx.type = 'text'\<close>, \<open>ctx.status = 200\<close> and \<open>flushHeaders()\<close>.\<close>

definition flushed_text_ctx :: kctx where
  "flushed_text_ctx = fresh_ctx\<lparr>
     statusCode := 200, statusMessage := Some ''OK'', explicitStatus := True,
     res_headers := [''content-type'' \<mapsto> HStr ''text/plain; charset=utf-8''],
     headersSent := True\<rparr>"

text \<open>After the response has ended.\<close>

definition finished_ctx :: kctx where
  "finished_ctx = fresh_ctx\<lparr>headersSent := True, finished := True\<rparr>"

section \<open>Properties of the pipeline\<close>

declare dispatch.simps [simp del]

lemma snd_settle [simp]: "snd (settle x) = snd x"
  by (cases x rule: settle.cases) auto

lemma run_invariant:
  assumes nxt: "\<And>s. P s \<Longrightarrow> P (snd (nxt s))"
    and upd: "\<And>s c. P s \<Longrightarrow> P (s\<lparr>ctx := c\<rparr>)"
  shows "P s \<Longrightarrow> P (snd (run p nxt s))"
proof (induction p arbitrary: s)
  case (Next k)
  obtain r s' where eq: "nxt s = (r, s')" by (cases "nxt s")
  with Next.prems nxt [of s] have "P s'" by simp
  then have "P (snd (run (k r) nxt s'))" by (rule Next.IH [OF rangeI])
  with eq show ?case by simp
qed (auto intro: upd)


lemma dispatch_repeat:
  "int i \<le> index s \<Longrightarrow>
   dispatch middleware nxt i s = (Rejected (Error ''next() called multiple times''), s)"
  by (simp add: dispatch.simps)

lemma dispatch_cases [case_names repeat resolved not_function call]:
  obtains
    "int i \<le> index s"
    "dispatch middleware nxt i s = (Rejected (Error ''next() called multiple times''), s)"
  | "index s < int i"
    "dispatch middleware nxt i s = (Fulfilled, s\<lparr>index := int i\<rparr>)"
  | "index s < int i"
    "dispatch middleware nxt i s =
       (Rejected (TypeError ''fn is not a function''), s\<lparr>index := int i\<rparr>)"
  | p where "index s < int i" "i \<le> length middleware"
    "(if i = length middleware then nxt else at_index middleware i) = JFunc p"
    "dispatch middleware nxt i s =
       settle (run p (dispatch middleware nxt (Suc i))
                     (s\<lparr>index := int i, invoked := invoked s @ [i]\<rparr>))"
proof (cases "int i \<le> index s")
  case True
  then show ?thesis using that(1) by (simp add: dispatch_repeat)
next
  case False
  let ?fn = "if i = length middleware then nxt else at_index middleware i"
  let ?s1 = "s\<lparr>index := int i\<rparr>"
  have eq: "dispatch middleware nxt i s =
      (if \<not> truthy ?fn then (Fulfilled, ?s1)
       else (case ?fn of
               JFunc p \<Rightarrow> settle (run p (dispatch middleware nxt (Suc i))
                                        (s\<lparr>index := int i, invoked := invoked s @ [i]\<rparr>))
             | _ \<Rightarrow> (Rejected (TypeError ''fn is not a function''), ?s1)))"
    using False by (subst dispatch.simps) (simp add: Let_def split: jv.splits)
  show ?thesis
  proof (cases "truthy ?fn")
    case f: False
    with eq have "dispatch middleware nxt i s = (Fulfilled, ?s1)" by simp
    with False show ?thesis using that(2) by simp
  next
    case t: True
    then have le: "i \<le> length middleware"
      by (auto simp: at_index_def split: if_splits)
    show ?thesis
    proof (cases ?fn)
      case (JFunc p)
      with eq t have "dispatch middleware nxt i s =
          settle (run p (dispatch middleware nxt (Suc i))
                        (s\<lparr>index := int i, invoked := invoked s @ [i]\<rparr>))"
        by simp
      with False le JFunc show ?thesis using that(4) [of p] by simp
    qed (use False t eq that(3) in auto)
  qed
qed

lemma dispatch_call:
  assumes "index s < int i" "i < length middleware" "middleware ! i = JFunc p"
  shows "dispatch middleware nxt i s =
           settle (run p (dispatch middleware nxt (Suc i))
                         (s\<lparr>index := int i, invoked := invoked s @ [i]\<rparr>))"
  using assms by (subst dispatch.simps) (simp add: Let_def at_index_def)

lemma dispatch_index_mono:
  "b \<le> index s \<Longrightarrow> b \<le> index (snd (dispatch middleware nxt i s))"
proof (induction "Suc (length middleware) - i" arbitrary: i s)
  case 0
  then show ?case
    by (cases rule: dispatch_cases [of i s middleware nxt]) auto
next
  case (Suc n)
  show ?case
  proof (cases rule: dispatch_cases [of i s middleware nxt])
    case (call p)
    from call(2) Suc.hyps(2) have n: "n = Suc (length middleware) - Suc i" by simp
    have "b \<le> index (snd (run p (dispatch middleware nxt (Suc i))
                              (s\<lparr>index := int i, invoked := invoked s @ [i]\<rparr>)))"
      by (rule run_invariant [where P = "\<lambda>s. b \<le> index s"])
         (use Suc.hyps(1) [OF n] Suc.prems call(1) in auto)
    with call(4) show ?thesis by simp
  qed (use Suc.prems in auto)
qed

lemma dispatch_index_reached: "int i \<le> index (snd (dispatch middleware nxt i s))"
proof (cases rule: dispatch_cases [of i s middleware nxt])
  case (call p)
  have "int i \<le> index (snd (run p (dispatch middleware nxt (Suc i))
                              (s\<lparr>index := int i, invoked := invoked s @ [i]\<rparr>)))"
    by (rule run_invariant [where P = "\<lambda>s. int i \<le> index s"])
       (auto intro: dispatch_index_mono)
  with call(4) show ?thesis by simp
qed auto

lemma run_first_call:
  "first_call p (ctx s) = Some (c', k) \<Longrightarrow>
   run p nxt s = (case nxt (s\<lparr>ctx := c'\<rparr>) of (r, s') \<Rightarrow> run (k r) nxt s')"
  by (induction p arbitrary: s) auto


lemma reached_ctx [simp]: "ctx (reached j c) = c" "(reached j c)\<lparr>ctx := c'\<rparr> = reached j c'"
  by (simp_all add: reached_def)

lemma reached_index [simp]: "index (reached j c) = int j - 1" "invoked (reached j c) = [0..<j]"
  by (simp_all add: reached_def)

lemma composed_reached: "composed middleware c nxt = dispatch middleware nxt 0 (reached 0 c)"
  by (simp add: composed_def reached_def)

lemma at_index_JFunc: "at_index middleware j = JFunc p \<Longrightarrow> j < length middleware \<and> middleware ! j = JFunc p"
  by (auto simp: at_index_def split: if_splits)

lemma dispatch_reached:
  assumes "at_index middleware j = JFunc p"
  shows "dispatch middleware nxt j (reached j c) =
           settle (run p (dispatch middleware nxt (Suc j)) (reached (Suc j) c))"
proof -
  from assms have "j < length middleware" "middleware ! j = JFunc p"
    by (simp_all add: at_index_JFunc)
  then have "dispatch middleware nxt j (reached j c) =
      settle (run p (dispatch middleware nxt (Suc j))
                    ((reached j c)\<lparr>index := int j, invoked := invoked (reached j c) @ [j]\<rparr>))"
    by (intro dispatch_call) simp_all
  also have "(reached j c)\<lparr>index := int j, invoked := invoked (reached j c) @ [j]\<rparr>
      = reached (Suc j) c"
    by (simp add: reached_def)
  finally show ?thesis .
qed

text \<open>A function that calls \<open>next\<close>: its dispatch, from the first call of \<open>next\<close> on.\<close>

lemma dispatch_through:
  assumes "at_index middleware j = JFunc p" and "first_call p c = Some (c', k)"
  shows "dispatch middleware nxt j (reached j c) =
           settle (case dispatch middleware nxt (Suc j) (reached (Suc j) c') of
                     (r, s') \<Rightarrow> run (k r) (dispatch middleware nxt (Suc j)) s')"
  using assms by (simp add: dispatch_reached run_first_call [where c' = c' and k = k])

lemma entry_Suc:
  assumes "entry middleware (Suc j) c = Some c'"
  obtains cj p k where "entry middleware j c = Some cj" "at_index middleware j = JFunc p"
    "first_call p cj = Some (c', k)"
  using assms by (auto split: option.splits jv.splits)

lemma entry_below:
  "entry middleware k c = Some ck \<Longrightarrow> i \<le> k \<Longrightarrow> \<exists>ci. entry middleware i c = Some ci"
proof (induction "k - i" arbitrary: i)
  case 0
  then show ?case by simp
next
  case (Suc n)
  then have "Suc i \<le> k" "n = k - Suc i" by simp_all
  with Suc obtain c' where "entry middleware (Suc i) c = Some c'" by blast
  then show ?case by (rule entry_Suc) blast
qed

text \<open>
  The onion, from the inside out: when the dispatch of layer \<open>k\<close> is rejected and
  each function before it passes the rejection of its \<open>next\<close> on, the pipeline is
  rejected with that error.
\<close>

lemma rejection_unwinds:
  assumes k: "entry middleware k c = Some ck"
    and base: "fst (dispatch middleware nxt k (reached k ck)) = Rejected e"
    and pass: "\<forall>j<k. passes_on middleware nxt c j"
  shows "fst (composed middleware c nxt) = Rejected e"
proof -
  have "fst (dispatch middleware nxt i (reached i ci)) = Rejected e"
    if "i \<le> k" "entry middleware i c = Some ci" for i ci
    using that
  proof (induction "k - i" arbitrary: i ci)
    case 0
    with k base show ?case by simp
  next
    case (Suc n)
    then have ik: "i < k" and n: "n = k - Suc i" by simp_all
    from entry_below [OF k, of "Suc i"] ik obtain c' where
      c': "entry middleware (Suc i) c = Some c'" by auto
    then obtain cj p kk where cj: "entry middleware i c = Some cj"
        "at_index middleware i = JFunc p" "first_call p cj = Some (c', kk)"
      by (rule entry_Suc)
    with Suc.prems(2) have ci: "ci = cj" by simp
    obtain r s' where d: "dispatch middleware nxt (Suc i) (reached (Suc i) c') = (r, s')"
      by (cases "dispatch middleware nxt (Suc i) (reached (Suc i) c')")
    from Suc.hyps(1) [OF n _ c'] ik d have r: "r = Rejected e" by simp
    from pass ik have "passes_on middleware nxt c i" by simp
    with cj d r have "fst (settle (run (kk (Rejected e)) (dispatch middleware nxt (Suc i)) s'))
        = Rejected e"
      by (simp add: passes_on_def)
    with cj d r ci show ?case
      by (simp add: dispatch_through [where c' = c' and k = kk])
  qed
  from this [of 0] show ?thesis by (simp add: composed_reached)
qed


text \<open>A second call of \<open>next\<close> whose rejection the function lets through.\<close>

lemma repeats_next_layer:
  assumes "repeats_next middleware nxt c k"
  obtains ck where "entry middleware k c = Some ck"
    "fst (dispatch middleware nxt k (reached k ck))
       = Rejected (Error ''next() called multiple times'')"
proof -
  let ?D = "dispatch middleware nxt (Suc k)"
  let ?E = "Error ''next() called multiple times''"
  from assms obtain ck p c1 k1 where ck: "entry middleware k c = Some ck"
      and p: "at_index middleware k = JFunc p" and f1: "first_call p ck = Some (c1, k1)"
      and rest: "(case ?D (reached (Suc k) c1) of
          (r1, s1) \<Rightarrow>
            (case first_call (k1 r1) (ctx s1) of
               None \<Rightarrow> False
             | Some (c2, k2) \<Rightarrow>
                 fst (settle (run (k2 (Rejected ?E)) ?D (s1\<lparr>ctx := c2\<rparr>))) = Rejected ?E))"
    by (auto simp: repeats_next_def split: option.splits jv.splits)
  obtain r1 s1 where d: "?D (reached (Suc k) c1) = (r1, s1)"
    by (cases "?D (reached (Suc k) c1)")
  with rest obtain c2 k2 where f2: "first_call (k1 r1) (ctx s1) = Some (c2, k2)"
      and thru: "fst (settle (run (k2 (Rejected ?E)) ?D (s1\<lparr>ctx := c2\<rparr>))) = Rejected ?E"
    by (auto split: option.splits)
  from dispatch_index_reached [of "Suc k" middleware nxt "reached (Suc k) c1"] d
  have "int (Suc k) \<le> index (s1\<lparr>ctx := c2\<rparr>)" by simp
  then have again: "?D (s1\<lparr>ctx := c2\<rparr>) = (Rejected ?E, s1\<lparr>ctx := c2\<rparr>)"
    by (rule dispatch_repeat)
  have "run (k1 r1) ?D s1 = run (k2 (Rejected ?E)) ?D (s1\<lparr>ctx := c2\<rparr>)"
    by (simp add: run_first_call [OF f2] again)
  with p f1 d thru have "fst (dispatch middleware nxt k (reached k ck)) = Rejected ?E"
    by (simp add: dispatch_through [where c' = c1 and k = k1])
  with ck show ?thesis by (rule that)
qed

text \<open>
  C3. compose throws a TypeError at once, before any pipeline exists, when its
  argument is not an array and when an element of the array is not a function.
\<close>

theorem compose_validates:
  "((\<forall>fns. middleware \<noteq> JArray fns) \<longrightarrow>
      compose middleware = Inl (TypeError ''Middleware stack must be an array!''))
   \<and> (\<forall>fns. middleware = JArray fns \<and> (\<exists>fn\<in>set fns. \<not> is_function fn) \<longrightarrow>
      compose middleware = Inl (TypeError ''Middleware must be composed of functions!''))"
proof -
  have "check_functions fns = Some (TypeError ''Middleware must be composed of functions!'')"
    if "\<exists>fn\<in>set fns. \<not> is_function fn" for fns :: "'a jv list"
    using that by (induction fns) auto
  then show ?thesis
    by (auto simp: compose_def split: jv.splits)
qed

theorem compose_validates_witness:
  "compose (JNum 3 :: unit jv) = Inl (TypeError ''Middleware stack must be an array!'')
   \<and> compose (JArray [JFunc noop, JStr ''x'']) =
       Inl (TypeError ''Middleware must be composed of functions!'')"
  using compose_validates [of "JNum 3 :: unit jv"]
    compose_validates [of "JArray [JFunc noop, JStr ''x'']"]
  by simp

text \<open>
  C1, as the code has it. A call of \<open>next\<close> for an index that is not above the highest
  index dispatched so far returns a promise rejected with
  \<open>Error('next() called multiple times')\<close>, calls no function and changes nothing;
  this is what any second call of the same \<open>next\<close> gets, whatever the first call did.
  The pipeline as a whole is rejected with that error when, in that invocation, a
  middleware calls \<open>next\<close> a second time and lets the rejection of the second call
  through, and every middleware before it passes the rejection of its own \<open>next\<close> on.
\<close>

theorem next_again_rejected:
  "(\<forall>i s. int i \<le> index s \<longrightarrow>
       dispatch middleware nxt i s = (Rejected (Error ''next() called multiple times''), s))
   \<and> (\<forall>i s. dispatch middleware nxt i (snd (dispatch middleware nxt i s)) =
         (Rejected (Error ''next() called multiple times''), snd (dispatch middleware nxt i s)))
   \<and> (\<forall>k c.
         repeats_next middleware nxt c k \<and> (\<forall>j<k. passes_on middleware nxt c j) \<longrightarrow>
         fst (composed middleware c nxt) = Rejected (Error ''next() called multiple times''))"
proof (intro conjI allI impI)
  fix i s
  show "dispatch middleware nxt i (snd (dispatch middleware nxt i s)) =
         (Rejected (Error ''next() called multiple times''), snd (dispatch middleware nxt i s))"
    by (rule dispatch_repeat) (rule dispatch_index_reached)
next
  fix k c
  assume h: "repeats_next middleware nxt c k \<and> (\<forall>j<k. passes_on middleware nxt c j)"
  then obtain ck where "entry middleware k c = Some ck"
    "fst (dispatch middleware nxt k (reached k ck))
       = Rejected (Error ''next() called multiple times'')"
    by (auto elim: repeats_next_layer)
  with h show "fst (composed middleware c nxt)
      = Rejected (Error ''next() called multiple times'')"
    by (intro rejection_unwinds [where k = k]) simp_all
qed (simp add: dispatch_repeat)

theorem next_again_rejected_witness:
  "repeats_next [JFunc returns_next, JFunc awaits_twice, JFunc noop] JUndefined () (Suc 0)
   \<and> passes_on [JFunc returns_next, JFunc awaits_twice, JFunc noop] JUndefined () 0
   \<and> fst (composed [JFunc returns_next, JFunc awaits_twice, JFunc noop] () JUndefined)
       = Rejected (Error ''next() called multiple times'')
   \<and> dispatch [JFunc noop] JUndefined 0 \<lparr>index = 0, ctx = (), invoked = [0]\<rparr>
       = (Rejected (Error ''next() called multiple times''),
          \<lparr>index = 0, ctx = (), invoked = [0]\<rparr>)"
proof -
  have r: "repeats_next [JFunc returns_next, JFunc awaits_twice, JFunc noop] JUndefined ()
             (Suc 0)"
    by (simp add: repeats_next_def at_index_def reached_def returns_next_def awaits_twice_def
        noop_def dispatch.simps)
  have f: "passes_on [JFunc returns_next, JFunc awaits_twice, JFunc noop] JUndefined () 0"
    by (simp add: passes_on_def at_index_def reached_def returns_next_def awaits_twice_def
        noop_def dispatch.simps)
  note inst = next_again_rejected
    [of "[JFunc returns_next, JFunc awaits_twice, JFunc noop]" JUndefined]
  from inst have "fst (composed [JFunc returns_next, JFunc awaits_twice, JFunc noop]
                        () JUndefined) = Rejected (Error ''next() called multiple times'')"
    using r f by (elim conjE allE [where x = "Suc 0"] allE [where x = "()"]) simp
  moreover from next_again_rejected [of "[JFunc noop]" JUndefined]
  have "dispatch [JFunc noop] JUndefined 0 \<lparr>index = 0, ctx = (), invoked = [0]\<rparr>
       = (Rejected (Error ''next() called multiple times''),
          \<lparr>index = 0, ctx = (), invoked = [0]\<rparr>)"
    by simp
  ultimately show ?thesis using r f by simp
qed

text \<open>
  The claim C1 as it is written fails: a middleware that calls \<open>next\<close> twice and
  catches (or never looks at) the second call's rejection leaves the pipeline
  fulfilled.
\<close>

theorem next_twice_counterexample:
  "fst (composed [JFunc calls_next_twice] () JUndefined) = Fulfilled"
  by (simp add: composed_def calls_next_twice_def dispatch.simps at_index_def)




section \<open>Properties of the response facade\<close>

declare set_status.simps [simp del] set_body.simps [simp del]

lemma lower_names [simp]:
  "toLowerCase ''Content-Type'' = ''content-type''"
  "toLowerCase ''Content-Length'' = ''content-length''"
  "toLowerCase ''Transfer-Encoding'' = ''transfer-encoding''"
  "toLowerCase ''Location'' = ''location''"
  "toLowerCase ''Referrer'' = ''referrer''"
  by code_simp+

lemma nullish_not_truthy: "nullish v \<Longrightarrow> \<not> truthy_body v"
  by (cases v) auto

lemma set_status_sent: "headersSent c \<Longrightarrow> set_status L code c = Inr c"
  by (subst set_status.simps) simp

lemma set_status_plain:
  assumes "\<not> headersSent c" "100 \<le> code" "code \<le> 999"
    "\<not> statuses_empty code \<or> \<not> truthy_body (stored_body c)"
  shows "set_status L code c =
     Inr (c\<lparr>explicitStatus := True, statusCode := code,
            statusMessage := (if httpVersionMajor c < 2 then statuses L code
                              else statusMessage c)\<rparr>)"
  using assms by (subst set_status.simps) (auto simp: Let_def)

lemma set_body_null:
  assumes "nullish v"
  shows "set_body L v c =
     Inr (remove_field ''Transfer-Encoding'' (remove_field ''Content-Length'' (remove_field ''Content-Type''
       (if statuses_empty (statusCode c) \<or> headersSent c then c\<lparr>stored_body := v\<rparr>
        else c\<lparr>stored_body := v, explicitStatus := True, statusCode := 204,
               statusMessage := (if httpVersionMajor c < 2 then statuses L 204
                                 else statusMessage c)\<rparr>))))"
proof (cases "statuses_empty (statusCode c)")
  case True
  with assms show ?thesis by (subst set_body.simps) (simp add: Let_def)
next
  case False
  show ?thesis
  proof (cases "headersSent c")
    case True
    with False assms show ?thesis
      by (subst set_body.simps) (simp add: Let_def set_status_sent)
  next
    case sent: False
    have "set_status L 204 (c\<lparr>stored_body := v\<rparr>) =
        Inr (c\<lparr>stored_body := v, explicitStatus := True, statusCode := 204,
               statusMessage := (if httpVersionMajor c < 2 then statuses L 204
                                 else statusMessage c)\<rparr>)"
      using sent assms by (subst set_status_plain) (auto simp: nullish_not_truthy)
    with False sent assms show ?thesis
      by (subst set_body.simps) (simp add: Let_def)
  qed
qed

lemma set_status_empty:
  assumes "\<not> headersSent c" "statuses_empty code" "truthy_body (stored_body c)"
  shows "set_status L code c =
     Inr (remove_field ''Transfer-Encoding'' (remove_field ''Content-Length'' (remove_field ''Content-Type''
       (c\<lparr>explicitStatus := True, statusCode := code,
          statusMessage := (if httpVersionMajor c < 2 then statuses L code
                            else statusMessage c),
          stored_body := BNull\<rparr>))))"
proof -
  from assms(2) have range: "100 \<le> code \<and> code \<le> 999"
    by (auto simp: statuses_empty_def)
  with assms show ?thesis
    by (subst set_status.simps) (auto simp: Let_def set_body_null)
qed

text \<open>What assigning a body that is not null does once the status has been seen to.\<close>

lemma set_body_value:
  assumes "\<not> nullish v"
  shows "set_body L v c =
     (let c2 = (if explicitStatus c \<or> headersSent c then c\<lparr>stored_body := v\<rparr>
                else c\<lparr>stored_body := v, explicitStatus := True, statusCode := 200,
                       statusMessage := (if httpVersionMajor c < 2 then statuses L 200
                                         else statusMessage c)\<rparr>);
          setType = \<not> header_truthy (res_headers c ''content-type'')
      in (case v of
            BString s \<Rightarrow>
              Inr (set_length (byteLength s)
                    (if setType then set_type L (if html_like s then ''html'' else ''text'') c2
                     else c2))
          | BBuffer bs \<Rightarrow>
              Inr (set_length (length bs) (if setType then set_type L ''bin'' c2 else c2))
          | BStream h \<Rightarrow>
              let c3 = c2\<lparr>listeners := listeners c2 @ [DestroyOnFinish h, ErrorHandler h]\<rparr>;
                  c4 = (if \<not> nullish (stored_body c) \<and> differs_from_stream L (stored_body c) h
                        then remove_field ''Content-Length'' c3 else c3)
              in Inr (if setType then set_type L ''bin'' c4 else c4)
          | _ \<Rightarrow> Inr (set_type L ''json'' (remove_field ''Content-Length'' c2))))"
proof (cases "explicitStatus c")
  case True
  with assms show ?thesis
    by (subst set_body.simps) (cases v; simp add: Let_def)
next
  case False
  show ?thesis
  proof (cases "headersSent c")
    case True
    then have "set_status L 200 (c\<lparr>stored_body := v\<rparr>) = Inr (c\<lparr>stored_body := v\<rparr>)"
      by (simp add: set_status_sent)
    with True False assms show ?thesis
      by (subst set_body.simps) (cases v; simp add: Let_def)
  next
    case sent: False
    then have "set_status L 200 (c\<lparr>stored_body := v\<rparr>) =
        Inr (c\<lparr>stored_body := v, explicitStatus := True, statusCode := 200,
               statusMessage := (if httpVersionMajor c < 2 then statuses L 200
                                 else statusMessage c)\<rparr>)"
      by (subst set_status_plain) (auto simp: statuses_empty_def)
    with sent False assms show ?thesis
      by (subst set_body.simps) (cases v; simp add: Let_def)
  qed
qed

lemma set_field_fields [simp]:
  "stored_body (set_field f v c) = stored_body c"
  "headersSent (set_field f v c) = headersSent c"
  "statusCode (set_field f v c) = statusCode c"
  "explicitStatus (set_field f v c) = explicitStatus c"
  "finished (set_field f v c) = finished c"
  "socket (set_field f v c) = socket c"
  "respond_flag (set_field f v c) = respond_flag c"
  by (simp_all add: set_field_def)

lemma remove_field_fields [simp]:
  "stored_body (remove_field f c) = stored_body c"
  "headersSent (remove_field f c) = headersSent c"
  "statusCode (remove_field f c) = statusCode c"
  "explicitStatus (remove_field f c) = explicitStatus c"
  "finished (remove_field f c) = finished c"
  "socket (remove_field f c) = socket c"
  "respond_flag (remove_field f c) = respond_flag c"
  by (simp_all add: remove_field_def)

lemma set_type_fields [simp]:
  "stored_body (set_type L t c) = stored_body c"
  "headersSent (set_type L t c) = headersSent c"
  "statusCode (set_type L t c) = statusCode c"
  "explicitStatus (set_type L t c) = explicitStatus c"
  "finished (set_type L t c) = finished c"
  "socket (set_type L t c) = socket c"
  "respond_flag (set_type L t c) = respond_flag c"
  by (simp_all add: set_type_def split: option.splits)

lemma set_length_fields [simp]:
  "stored_body (set_length n c) = stored_body c"
  "headersSent (set_length n c) = headersSent c"
  "statusCode (set_length n c) = statusCode c"
  "explicitStatus (set_length n c) = explicitStatus c"
  "finished (set_length n c) = finished c"
  "socket (set_length n c) = socket c"
  "respond_flag (set_length n c) = respond_flag c"
  by (simp_all add: set_length_def)

lemma header_of_set_field:
  "header_of name (set_field f v c) =
     (if \<not> headersSent c \<and> toLowerCase f = name then Some v else header_of name c)"
  by (simp add: header_of_def set_field_def)

lemma header_of_remove_field:
  "header_of name (remove_field f c) =
     (if \<not> headersSent c \<and> toLowerCase f = name then None else header_of name c)"
  by (simp add: header_of_def remove_field_def)

lemma header_of_set_type:
  "header_of name (set_type L t c) =
     (if \<not> headersSent c \<and> name = ''content-type'' then resolved_type L t
      else header_of name c)"
  by (auto simp: set_type_def resolved_type_def header_of_set_field header_of_remove_field
      split: option.splits)

lemma header_of_set_length:
  "header_of name (set_length n c) =
     (if \<not> headersSent c \<and> name = ''content-length'' then Some (HStr (string_of_nat n))
      else header_of name c)"
  by (auto simp: set_length_def header_of_set_field)

lemma header_of_update [simp]:
  "header_of name (c\<lparr>stored_body := b\<rparr>) = header_of name c"
  "header_of name (c\<lparr>explicitStatus := e\<rparr>) = header_of name c"
  "header_of name (c\<lparr>statusCode := k\<rparr>) = header_of name c"
  "header_of name (c\<lparr>statusMessage := m\<rparr>) = header_of name c"
  "header_of name (c\<lparr>listeners := ls\<rparr>) = header_of name c"
  "header_of name (c\<lparr>written := w\<rparr>) = header_of name c"
  "header_of name (c\<lparr>headersSent := hs\<rparr>) = header_of name c"
  "header_of name (c\<lparr>finished := fi\<rparr>) = header_of name c"
  by (simp_all add: header_of_def)

lemmas header_of_ops =
  header_of_set_field header_of_remove_field header_of_set_type header_of_set_length

lemma set_body_value_facts:
  assumes "\<not> nullish v"
  obtains c' where "set_body L v c = Inr c'" "stored_body c' = v"
    "headersSent c' = headersSent c"
    "statusCode c' = (if explicitStatus c \<or> headersSent c then statusCode c else 200)"
    "explicitStatus c' = (explicitStatus c \<or> \<not> headersSent c)"
    "finished c' = finished c" "socket c' = socket c" "respond_flag c' = respond_flag c"
  using assms by (cases v) (simp_all add: set_body_value Let_def)

lemma set_body_null_headers:
  assumes "nullish v" "\<not> headersSent c"
  obtains c' where "set_body L v c = Inr c'" "stored_body c' = v"
    "header_of ''content-type'' c' = None" "header_of ''content-length'' c' = None"
    "header_of ''transfer-encoding'' c' = None"
    "statusCode c' = (if statuses_empty (statusCode c) then statusCode c else 204)"
    "headersSent c' = headersSent c" "finished c' = finished c"
  using assms by (simp add: set_body_null header_of_remove_field)

text \<open>
  C4, as the code has it. For a status code of 204, 205 or 304 and a body that is
  truthy, on a response whose headers have not been sent (a fresh one in
  particular): assigning the body and then the status leaves a null body and no
  Content-Type, Content-Length or Transfer-Encoding header. Assigning the status and
  then the body keeps the body (and the status); the body and the three headers go
  when the terminal respond step runs.
\<close>

theorem empty_status_and_body:
  assumes "statuses_empty code" and "truthy_body v" and "\<not> headersSent c"
  shows "map_sum id body_and_headers (and_then (set_body L v c) (set_status L code))
           = Inr (BNull, None, None, None)
       \<and> map_sum id stored_body (and_then (set_status L code c) (set_body L v)) = Inr v
       \<and> map_sum id statusCode (and_then (set_status L code c) (set_body L v)) = Inr code
       \<and> (respond_flag c \<noteq> Some False \<and> writable c \<longrightarrow>
            map_sum id body_and_headers
              (and_then (and_then (set_status L code c) (set_body L v)) (respond L))
            = Inr (BNull, None, None, None))"
proof -
  from assms(2) have nn: "\<not> nullish v" by (auto dest: nullish_not_truthy)
  have first: "map_sum id body_and_headers (and_then (set_body L v c) (set_status L code))
           = Inr (BNull, None, None, None)"
  proof -
    from nn obtain c1 where c1: "set_body L v c = Inr c1" "stored_body c1 = v"
        "headersSent c1 = headersSent c"
      by (rule set_body_value_facts)
    with assms show ?thesis
      by (simp add: and_then_def set_status_empty body_and_headers_def header_of_remove_field)
  qed
  obtain c1 where c1: "set_status L code c = Inr c1" "headersSent c1 = headersSent c"
      "statusCode c1 = code" "explicitStatus c1" "finished c1 = finished c"
      "socket c1 = socket c" "respond_flag c1 = respond_flag c"
  proof (cases "truthy_body (stored_body c)")
    case True
    with assms that show ?thesis by (simp add: set_status_empty)
  next
    case False
    from assms(1) have "100 \<le> code \<and> code \<le> 999" by (auto simp: statuses_empty_def)
    with False assms that show ?thesis by (simp add: set_status_plain)
  qed
  from nn obtain c2 where c2: "set_body L v c1 = Inr c2" "stored_body c2 = v"
      "headersSent c2 = headersSent c1"
      "statusCode c2 = (if explicitStatus c1 \<or> headersSent c1 then statusCode c1 else 200)"
      "explicitStatus c2 = (explicitStatus c1 \<or> \<not> headersSent c1)"
      "finished c2 = finished c1" "socket c2 = socket c1" "respond_flag c2 = respond_flag c1"
    by (rule set_body_value_facts)
  have last: "map_sum id body_and_headers (respond L c2) = Inr (BNull, None, None, None)"
    if "respond_flag c \<noteq> Some False" "writable c"
  proof -
    from that c1 c2 have go: "respond_flag c2 \<noteq> Some False" "writable c2"
      by (auto simp: writable_def split: if_splits)
    have "nullish BNull" "\<not> headersSent c2" using c1 c2 assms by simp_all
    then obtain c3 where c3: "set_body L BNull c2 = Inr c3" "stored_body c3 = BNull"
        "header_of ''content-type'' c3 = None" "header_of ''content-length'' c3 = None"
        "header_of ''transfer-encoding'' c3 = None"
      by (rule set_body_null_headers)
    with go c1 c2 assms(1) show ?thesis
      by (simp add: respond_def Let_def body_and_headers_def res_end_def)
  qed
  from first c1 c2 last show ?thesis
    by (simp add: and_then_def)
qed

theorem empty_status_and_body_witness:
  "statuses_empty 204 \<and> truthy_body (BString ''hello'') \<and> \<not> headersSent fresh_ctx
   \<and> respond_flag fresh_ctx \<noteq> Some False \<and> writable fresh_ctx
   \<and> map_sum id body_and_headers
        (and_then (set_body sample_lib (BString ''hello'') fresh_ctx) (set_status sample_lib 204))
       = Inr (BNull, None, None, None)
   \<and> map_sum id stored_body
        (and_then (set_status sample_lib 204 fresh_ctx) (set_body sample_lib (BString ''hello'')))
       = Inr (BString ''hello'')
   \<and> map_sum id body_and_headers
        (and_then (and_then (set_status sample_lib 204 fresh_ctx)
                            (set_body sample_lib (BString ''hello''))) (respond sample_lib))
       = Inr (BNull, None, None, None)"
proof -
  have h: "statuses_empty 204" "truthy_body (BString ''hello'')" "\<not> headersSent fresh_ctx"
    by (simp_all add: statuses_empty_def fresh_ctx_def)
  have w: "respond_flag fresh_ctx \<noteq> Some False" "writable fresh_ctx"
    by (simp_all add: fresh_ctx_def writable_def)
  from empty_status_and_body [OF h, of sample_lib] h w show ?thesis by simp
qed

text \<open>
  The claim C4 as it is written fails in the order status, then body: the body and
  the headers it brings stay on the facade.
\<close>

theorem status_then_body_counterexample:
  "map_sum id body_and_headers
     (and_then (set_status sample_lib 204 fresh_ctx) (set_body sample_lib (BString ''hello'')))
   = Inr (BString ''hello'', Some (HStr ''text/plain; charset=utf-8''), Some (HStr ''5''), None)"
proof -
  have "set_status sample_lib 204 fresh_ctx =
      Inr (fresh_ctx\<lparr>explicitStatus := True, statusCode := 204,
                     statusMessage := Some ''No Content''\<rparr>)"
    by (subst set_status_plain) (simp_all add: fresh_ctx_def sample_lib_def)
  then show ?thesis
    by (simp add: and_then_def set_body_value Let_def body_and_headers_def header_of_ops
        resolved_type_def html_like_def is_space_def byteLength_def)
       (simp add: fresh_ctx_def sample_lib_def header_of_def)
qed

text \<open>
  C5, as the code has it. Assigning a body that is not null sets the status code to
  200 when the status has not been set explicitly and the headers have not been
  sent; it leaves the status code as it is when the status has been set explicitly.
\<close>

theorem body_sets_status:
  assumes "\<not> nullish v"
  shows "(\<not> explicitStatus c \<and> \<not> headersSent c \<longrightarrow>
            map_sum id statusCode (set_body L v c) = Inr 200)
       \<and> (explicitStatus c \<longrightarrow>
            map_sum id statusCode (set_body L v c) = Inr (statusCode c))"
proof -
  from assms obtain c' where "set_body L v c = Inr c'"
    "statusCode c' = (if explicitStatus c \<or> headersSent c then statusCode c else 200)"
    by (rule set_body_value_facts)
  then show ?thesis by simp
qed

theorem body_sets_status_witness:
  "\<not> nullish (BString ''ok'') \<and> \<not> explicitStatus fresh_ctx \<and> \<not> headersSent fresh_ctx
   \<and> map_sum id statusCode (set_body sample_lib (BString ''ok'') fresh_ctx) = Inr 200
   \<and> explicitStatus flushed_text_ctx
   \<and> map_sum id statusCode (set_body sample_lib (BString ''ok'') flushed_text_ctx)
       = Inr (statusCode flushed_text_ctx)"
proof -
  have n: "\<not> nullish (BString ''ok'')" by simp
  have h: "\<not> explicitStatus fresh_ctx" "\<not> headersSent fresh_ctx"
      "explicitStatus flushed_text_ctx"
    by (simp_all add: fresh_ctx_def flushed_text_ctx_def)
  from body_sets_status [OF n, of fresh_ctx sample_lib]
    body_sets_status [OF n, of flushed_text_ctx sample_lib] h
  show ?thesis by simp
qed

text \<open>
  The claim C5 as it is written fails once the headers have been sent: the status
  setter returns at once, and the status stays 404.
\<close>

theorem body_after_flush_counterexample:
  "\<not> explicitStatus flushed_ctx
   \<and> map_sum id statusCode (set_body sample_lib (BString ''x'') flushed_ctx) = Inr 404"
  by (simp add: set_body_value Let_def) (simp add: flushed_ctx_def fresh_ctx_def)

lemma html_like_iff:
  "html_like s = (\<exists>ws rest. s = ws @ CHR ''<'' # rest \<and> (\<forall>ch\<in>set ws. is_space ch))"
proof
  assume "html_like s"
  then obtain rest where d: "dropWhile is_space s = CHR ''<'' # rest"
    by (auto simp: html_like_def split: list.splits)
  have "s = takeWhile is_space s @ dropWhile is_space s" by simp
  with d have "s = takeWhile is_space s @ CHR ''<'' # rest" by simp
  moreover have "\<forall>ch\<in>set (takeWhile is_space s). is_space ch"
    by (auto dest: set_takeWhileD)
  ultimately show "\<exists>ws rest. s = ws @ CHR ''<'' # rest \<and> (\<forall>ch\<in>set ws. is_space ch)"
    by blast
next
  assume "\<exists>ws rest. s = ws @ CHR ''<'' # rest \<and> (\<forall>ch\<in>set ws. is_space ch)"
  then obtain ws rest where s: "s = ws @ CHR ''<'' # rest" and ws: "\<forall>ch\<in>set ws. is_space ch"
    by blast
  have "\<not> is_space CHR ''<''" by (simp add: is_space_def)
  with ws have "dropWhile is_space s = CHR ''<'' # rest"
    unfolding s by (simp add: dropWhile_append2)
  then show "html_like s" by (simp add: html_like_def)
qed

text \<open>
  C6, as the code has it. Assigning a string body when no (non-empty) Content-Type
  header is set and the headers have not been sent leaves the content type that
  \<open>html\<close> resolves to when the string matches \<open>/^\s*</\<close>, that is when a \<open><\<close> follows
  any leading white space, and the content type that \<open>text\<close> resolves to otherwise.
  When a (non-empty) Content-Type header is set, it stays as it is.
\<close>

theorem string_body_content_type:
  "(\<not> headersSent c \<and> \<not> header_truthy (header_of ''content-type'' c) \<longrightarrow>
      map_sum id (header_of ''content-type'') (set_body L (BString s) c)
        = Inr (resolved_type L (if html_like s then ''html'' else ''text'')))
   \<and> (header_truthy (header_of ''content-type'' c) \<longrightarrow>
      map_sum id (header_of ''content-type'') (set_body L (BString s) c)
        = Inr (header_of ''content-type'' c))
   \<and> html_like s = (\<exists>ws rest. s = ws @ CHR ''<'' # rest \<and> (\<forall>ch\<in>set ws. is_space ch))"
proof (intro conjI impI)
  show "html_like s = (\<exists>ws rest. s = ws @ CHR ''<'' # rest \<and> (\<forall>ch\<in>set ws. is_space ch))"
    by (rule html_like_iff)
qed (simp_all add: set_body_value Let_def header_of_ops, simp_all add: header_of_def)

theorem string_body_content_type_witness:
  "\<not> headersSent fresh_ctx \<and> \<not> header_truthy (header_of ''content-type'' fresh_ctx)
   \<and> map_sum id (header_of ''content-type'') (set_body sample_lib (BString ''<p>hi</p>'') fresh_ctx)
       = Inr (Some (HStr ''text/html; charset=utf-8''))
   \<and> map_sum id (header_of ''content-type'') (set_body sample_lib (BString ''hi'') fresh_ctx)
       = Inr (Some (HStr ''text/plain; charset=utf-8''))
   \<and> header_truthy (header_of ''content-type'' flushed_text_ctx)
   \<and> map_sum id (header_of ''content-type'') (set_body sample_lib (BString ''<p>'') flushed_text_ctx)
       = Inr (header_of ''content-type'' flushed_text_ctx)"
proof -
  have h: "\<not> headersSent fresh_ctx" "\<not> header_truthy (header_of ''content-type'' fresh_ctx)"
      "header_truthy (header_of ''content-type'' flushed_text_ctx)"
    by (simp_all add: fresh_ctx_def flushed_text_ctx_def header_of_def)
  have e: "html_like ''<p>hi</p>''" "\<not> html_like ''hi''"
      "resolved_type sample_lib ''html'' = Some (HStr ''text/html; charset=utf-8'')"
      "resolved_type sample_lib ''text'' = Some (HStr ''text/plain; charset=utf-8'')"
    by (simp_all add: html_like_def is_space_def resolved_type_def sample_lib_def)
  from string_body_content_type [of fresh_ctx sample_lib "''<p>hi</p>''"]
    string_body_content_type [of fresh_ctx sample_lib "''hi''"]
    string_body_content_type [of flushed_text_ctx sample_lib "''<p>''"] h e
  show ?thesis by simp
qed

text \<open>
  The claim C6 as it is written fails for a string whose \<open><\<close> comes after white
  space: its first character is not \<open><\<close>, and the content type is that of html.
\<close>

theorem space_before_tag_counterexample:
  "hd '' <p>'' \<noteq> CHR ''<''
   \<and> map_sum id (header_of ''content-type'') (set_body sample_lib (BString '' <p>'') fresh_ctx)
       = Inr (Some (HStr ''text/html; charset=utf-8''))
   \<and> resolved_type sample_lib ''text'' = Some (HStr ''text/plain; charset=utf-8'')"
  by (simp add: set_body_value Let_def header_of_ops html_like_def is_space_def resolved_type_def)
     (simp add: fresh_ctx_def sample_lib_def header_of_def)

text \<open>
  C7, as the code has it. On a response whose headers have not been sent, assigning
  null (or undefined) as the body removes the Content-Type, Content-Length and
  Transfer-Encoding headers and sets the status code to 204 unless it is 204, 205
  or 304 already.
\<close>

theorem null_body_strips:
  assumes "nullish v" and "\<not> headersSent c"
  shows "map_sum id status_and_headers (set_body L v c)
           = Inr (if statuses_empty (statusCode c) then statusCode c else 204,
                  None, None, None)"
  using assms by (simp add: set_body_null status_and_headers_def header_of_remove_field)

theorem null_body_strips_witness:
  "nullish BNull \<and> \<not> headersSent fresh_ctx
   \<and> map_sum id status_and_headers (set_body sample_lib BNull fresh_ctx)
       = Inr (204, None, None, None)"
proof -
  have h: "nullish BNull" "\<not> headersSent fresh_ctx" "\<not> statuses_empty (statusCode fresh_ctx)"
    by (simp_all add: fresh_ctx_def statuses_empty_def)
  from null_body_strips [OF h(1,2), of sample_lib] h show ?thesis by simp
qed

text \<open>
  The claim C7 as it is written fails once the headers have been sent: neither the
  headers nor the status change.
\<close>

theorem null_body_after_flush_counterexample:
  "map_sum id status_and_headers (set_body sample_lib BNull flushed_text_ctx)
     = Inr (200, Some (HStr ''text/plain; charset=utf-8''), None, None)"
  by (simp add: set_body_null status_and_headers_def header_of_remove_field)
     (simp add: flushed_text_ctx_def fresh_ctx_def header_of_def statuses_empty_def)

lemma set_body_string_facts:
  obtains c' where "set_body L (BString s) c = Inr c'" "stored_body c' = BString s"
    "statusCode c' = (if explicitStatus c \<or> headersSent c then statusCode c else 200)"
    "header_of ''location'' c' = header_of ''location'' c"
  by (simp add: set_body_value Let_def header_of_ops)

lemma redirect_steps:
  assumes "\<not> headersSent c"
  obtains c2 where
    "(if \<not> redirect_code L (statusCode (set_field ''Location'' (HStr url) c))
      then set_status L 302 (set_field ''Location'' (HStr url) c)
      else Inr (set_field ''Location'' (HStr url) c)) = Inr c2"
    "header_of ''location'' c2 = Some (HStr url)"
    "statusCode c2 = (if redirect_code L (statusCode c) then statusCode c else 302)"
    "explicitStatus c2 = (explicitStatus c \<or> \<not> redirect_code L (statusCode c))"
    "headersSent c2 = headersSent c" "req_headers c2 = req_headers c"
proof (cases "redirect_code L (statusCode c)")
  case True
  with assms that show ?thesis by (simp add: header_of_set_field) (simp add: set_field_def)
next
  case False
  have "set_status L 302 (set_field ''Location'' (HStr url) c) =
      Inr ((set_field ''Location'' (HStr url) c)
             \<lparr>explicitStatus := True, statusCode := 302,
              statusMessage := (if httpVersionMajor (set_field ''Location'' (HStr url) c) < 2
                                then statuses L 302
                                else statusMessage (set_field ''Location'' (HStr url) c))\<rparr>)"
    using assms by (subst set_status_plain) (simp_all add: statuses_empty_def)
  with False assms that show ?thesis
    by (simp add: header_of_set_field) (simp add: set_field_def)
qed

lemma redirect_back_refused:
  assumes "\<not> headersSent c" and "\<not> legal_header_value (HStr (back_target alt c))"
  shows "redirect L ''back'' alt c =
           Inl (TypeError (''Invalid character in header content ['' @ CHR 0x22 # ''Location''
                           @ CHR 0x22 # '']''))"
  using assms by (simp add: redirect_def set_checked_def)

lemma redirect_back_result:
  assumes "\<not> headersSent c" and "legal_header_value (HStr (back_target alt c))"
  obtains c' where "redirect L ''back'' alt c = Inr c'"
    "header_of ''location'' c' = Some (HStr (back_target alt c))"
    "statusCode c' = (if redirect_code L (statusCode c) then statusCode c else 302)
       \<or> \<not> explicitStatus c \<and> redirect_code L (statusCode c)"
    "or_empty (ctx_accepts L [''html''] c) \<noteq> [] \<longrightarrow>
       stored_body c' =
         BString (''Redirecting to <a href='' @ CHR 0x22 # escape L (back_target alt c)
                  @ CHR 0x22 # ''>'' @ escape L (back_target alt c) @ ''</a>.'')"
proof -
  let ?url = "back_target alt c"
  from assms(1) obtain c2 where c2:
    "(if \<not> redirect_code L (statusCode (set_field ''Location'' (HStr ?url) c))
      then set_status L 302 (set_field ''Location'' (HStr ?url) c)
      else Inr (set_field ''Location'' (HStr ?url) c)) = Inr c2"
    "header_of ''location'' c2 = Some (HStr ?url)"
    "statusCode c2 = (if redirect_code L (statusCode c) then statusCode c else 302)"
    "explicitStatus c2 = (explicitStatus c \<or> \<not> redirect_code L (statusCode c))"
    "headersSent c2 = headersSent c" "req_headers c2 = req_headers c"
    by (rule redirect_steps)
  let ?html = "''Redirecting to <a href='' @ CHR 0x22 # escape L ?url @ CHR 0x22 # ''>''
                 @ escape L ?url @ ''</a>.''"
  let ?text = "''Redirecting to '' @ ?url @ ''.''"
  obtain c3 where c3:
    "set_body L (BString ?html) (set_type L ''text/html; charset=utf-8'' c2) = Inr c3"
    "stored_body c3 = BString ?html"
    "statusCode c3 = (if explicitStatus (set_type L ''text/html; charset=utf-8'' c2)
                         \<or> headersSent (set_type L ''text/html; charset=utf-8'' c2)
                      then statusCode (set_type L ''text/html; charset=utf-8'' c2) else 200)"
    "header_of ''location'' c3 = header_of ''location'' (set_type L ''text/html; charset=utf-8'' c2)"
    by (rule set_body_string_facts)
  obtain c4 where c4:
    "set_body L (BString ?text) (set_type L ''text/plain; charset=utf-8'' c2) = Inr c4"
    "stored_body c4 = BString ?text"
    "statusCode c4 = (if explicitStatus (set_type L ''text/plain; charset=utf-8'' c2)
                         \<or> headersSent (set_type L ''text/plain; charset=utf-8'' c2)
                      then statusCode (set_type L ''text/plain; charset=utf-8'' c2) else 200)"
    "header_of ''location'' c4 = header_of ''location'' (set_type L ''text/plain; charset=utf-8'' c2)"
    by (rule set_body_string_facts)
  have acc: "ctx_accepts L [''html''] c2 = ctx_accepts L [''html''] c"
    using c2(6) by (simp add: ctx_accepts_def)
  have loc: "set_checked ''Location'' (HStr ?url) c = Inr (set_field ''Location'' (HStr ?url) c)"
    using assms by (simp add: set_checked_def)
  show ?thesis
  proof (cases "or_empty (ctx_accepts L [''html''] c) \<noteq> []")
    case True
    then have "redirect L ''back'' alt c = Inr c3"
      using c2(1) c3(1) acc loc by (simp add: redirect_def Let_def)
    with True c2 c3 assms show ?thesis
      by (intro that [of c3]) (auto simp: header_of_set_type)
  next
    case False
    then have "redirect L ''back'' alt c = Inr c4"
      using c2(1) c4(1) acc loc by (simp add: redirect_def Let_def)
    with False c2 c4 assms show ?thesis
      by (intro that [of c4]) (auto simp: header_of_set_type)
  qed
qed

text \<open>
  C9, as the code has it. \<open>redirect('back', alt)\<close> resolves to the Referrer of the
  request when there is one, to \<open>alt\<close> when there is none, and to \<open>/\<close> when there is
  neither. On a response whose headers have not been sent, and when that URL is a
  value the transport accepts in a header, it sets the Location header to it; it sets
  the status to 302 when the current status is not a redirect code and leaves a
  redirect code that was set through the status setter as it is; and when the client
  accepts html, the body becomes the HTML notice with the escaped URL. When the URL
  holds a character that \<open>res.setHeader\<close> refuses, redirect throws its TypeError
  before anything is set.
\<close>

theorem redirect_back:
  assumes "\<not> headersSent c"
  shows "(legal_header_value (HStr (back_target alt c)) \<longrightarrow>
            map_sum id (header_of ''location'') (redirect L ''back'' alt c)
              = Inr (Some (HStr (back_target alt c)))
            \<and> (\<not> redirect_code L (statusCode c) \<longrightarrow>
                 map_sum id statusCode (redirect L ''back'' alt c) = Inr 302)
            \<and> (redirect_code L (statusCode c) \<and> explicitStatus c \<longrightarrow>
                 map_sum id statusCode (redirect L ''back'' alt c) = Inr (statusCode c))
            \<and> (or_empty (ctx_accepts L [''html''] c) \<noteq> [] \<longrightarrow>
                 map_sum id stored_body (redirect L ''back'' alt c)
                   = Inr (BString (''Redirecting to <a href='' @ CHR 0x22 #
                            escape L (back_target alt c) @ CHR 0x22 # ''>'' @
                            escape L (back_target alt c) @ ''</a>.''))))
       \<and> (\<not> legal_header_value (HStr (back_target alt c)) \<longrightarrow>
            redirect L ''back'' alt c =
              Inl (TypeError (''Invalid character in header content ['' @ CHR 0x22 #
                              ''Location'' @ CHR 0x22 # '']'')))
       \<and> (ctx_get ''Referrer'' c \<noteq> [] \<longrightarrow> back_target alt c = ctx_get ''Referrer'' c)
       \<and> (ctx_get ''Referrer'' c = [] \<and> or_empty alt \<noteq> [] \<longrightarrow> back_target alt c = or_empty alt)
       \<and> (ctx_get ''Referrer'' c = [] \<and> or_empty alt = [] \<longrightarrow> back_target alt c = ''/'')"
proof (intro conjI)
  show "legal_header_value (HStr (back_target alt c)) \<longrightarrow>
            map_sum id (header_of ''location'') (redirect L ''back'' alt c)
              = Inr (Some (HStr (back_target alt c)))
            \<and> (\<not> redirect_code L (statusCode c) \<longrightarrow>
                 map_sum id statusCode (redirect L ''back'' alt c) = Inr 302)
            \<and> (redirect_code L (statusCode c) \<and> explicitStatus c \<longrightarrow>
                 map_sum id statusCode (redirect L ''back'' alt c) = Inr (statusCode c))
            \<and> (or_empty (ctx_accepts L [''html''] c) \<noteq> [] \<longrightarrow>
                 map_sum id stored_body (redirect L ''back'' alt c)
                   = Inr (BString (''Redirecting to <a href='' @ CHR 0x22 #
                            escape L (back_target alt c) @ CHR 0x22 # ''>'' @
                            escape L (back_target alt c) @ ''</a>.'')))"
  proof
    assume legal: "legal_header_value (HStr (back_target alt c))"
    from assms legal obtain c' where "redirect L ''back'' alt c = Inr c'"
      "header_of ''location'' c' = Some (HStr (back_target alt c))"
      "statusCode c' = (if redirect_code L (statusCode c) then statusCode c else 302)
         \<or> \<not> explicitStatus c \<and> redirect_code L (statusCode c)"
      "or_empty (ctx_accepts L [''html''] c) \<noteq> [] \<longrightarrow>
         stored_body c' =
           BString (''Redirecting to <a href='' @ CHR 0x22 # escape L (back_target alt c)
                    @ CHR 0x22 # ''>'' @ escape L (back_target alt c) @ ''</a>.'')"
      by (rule redirect_back_result)
    then show "map_sum id (header_of ''location'') (redirect L ''back'' alt c)
              = Inr (Some (HStr (back_target alt c)))
            \<and> (\<not> redirect_code L (statusCode c) \<longrightarrow>
                 map_sum id statusCode (redirect L ''back'' alt c) = Inr 302)
            \<and> (redirect_code L (statusCode c) \<and> explicitStatus c \<longrightarrow>
                 map_sum id statusCode (redirect L ''back'' alt c) = Inr (statusCode c))
            \<and> (or_empty (ctx_accepts L [''html''] c) \<noteq> [] \<longrightarrow>
                 map_sum id stored_body (redirect L ''back'' alt c)
                   = Inr (BString (''Redirecting to <a href='' @ CHR 0x22 #
                            escape L (back_target alt c) @ CHR 0x22 # ''>'' @
                            escape L (back_target alt c) @ ''</a>.'')))"
      by auto
  qed
qed (use assms in \<open>simp_all add: redirect_back_refused back_target_def\<close>)

lemma referrer_fresh: "ctx_get ''Referrer'' fresh_ctx = ''http://x''"
  by (simp add: ctx_get_def req_get_def or_empty_def fresh_ctx_def)

theorem redirect_back_witness:
  "\<not> headersSent fresh_ctx \<and> back_target None fresh_ctx = ''http://x''
   \<and> legal_header_value (HStr ''http://x'')
   \<and> \<not> redirect_code sample_lib (statusCode fresh_ctx)
   \<and> or_empty (ctx_accepts sample_lib [''html''] fresh_ctx) \<noteq> []
   \<and> map_sum id (header_of ''location'') (redirect sample_lib ''back'' None fresh_ctx)
       = Inr (Some (HStr ''http://x''))
   \<and> map_sum id statusCode (redirect sample_lib ''back'' None fresh_ctx) = Inr 302
   \<and> map_sum id stored_body (redirect sample_lib ''back'' None fresh_ctx)
       = Inr (BString (''Redirecting to <a href='' @ CHR 0x22 # ''http://x'' @ CHR 0x22 #
                        ''>http://x</a>.''))
   \<and> map_sum id statusCode
        (redirect sample_lib ''back'' None (fresh_ctx\<lparr>statusCode := 301, explicitStatus := True\<rparr>))
       = Inr 301
   \<and> map_sum id (header_of ''location'')
        (redirect sample_lib ''back'' (Some ''/index.html'')
           (fresh_ctx\<lparr>req_headers := [''accept'' \<mapsto> ''text/html'']\<rparr>))
       = Inr (Some (HStr ''/index.html''))
   \<and> map_sum id (header_of ''location'')
        (redirect sample_lib ''back'' None (fresh_ctx\<lparr>req_headers := [''accept'' \<mapsto> ''text/html'']\<rparr>))
       = Inr (Some (HStr ''/''))
   \<and> redirect sample_lib ''back'' (Some (''/a'' @ CHR 0x0A # ''b''))
        (fresh_ctx\<lparr>req_headers := [''accept'' \<mapsto> ''text/html'']\<rparr>)
       = Inl (TypeError (''Invalid character in header content ['' @ CHR 0x22 #
                         ''Location'' @ CHR 0x22 # '']''))"
proof -
  let ?plain = "fresh_ctx\<lparr>req_headers := [''accept'' \<mapsto> ''text/html'']\<rparr>"
  let ?moved = "fresh_ctx\<lparr>statusCode := 301, explicitStatus := True\<rparr>"
  have h: "\<not> headersSent fresh_ctx" "back_target None fresh_ctx = ''http://x''"
      "legal_header_value (HStr ''http://x'')"
      "\<not> redirect_code sample_lib (statusCode fresh_ctx)"
      "or_empty (ctx_accepts sample_lib [''html''] fresh_ctx) \<noteq> []"
      "escape sample_lib ''http://x'' = ''http://x''"
    by (simp_all add: referrer_fresh back_target_def legal_header_value_def legal_header_char_def)
       (simp_all add: fresh_ctx_def sample_lib_def ctx_accepts_def or_empty_def)
  have m: "\<not> headersSent ?moved" "back_target None ?moved = ''http://x''"
      "redirect_code sample_lib (statusCode ?moved)" "explicitStatus ?moved"
    by (simp_all add: back_target_def ctx_get_def req_get_def fresh_ctx_def sample_lib_def
        or_empty_def)
  have n: "\<not> headersSent ?plain"
      "back_target (Some ''/index.html'') ?plain = ''/index.html''"
      "back_target None ?plain = ''/''"
      "back_target (Some (''/a'' @ CHR 0x0A # ''b'')) ?plain = ''/a'' @ CHR 0x0A # ''b''"
      "legal_header_value (HStr ''/index.html'')" "legal_header_value (HStr ''/'')"
      "\<not> legal_header_value (HStr (''/a'' @ CHR 0x0A # ''b''))"
    by (simp_all add: back_target_def ctx_get_def req_get_def or_empty_def fresh_ctx_def
        legal_header_value_def legal_header_char_def)
  from redirect_back [OF h(1), of None sample_lib]
    redirect_back [OF m(1), of None sample_lib]
    redirect_back [OF n(1), of "Some ''/index.html''" sample_lib]
    redirect_back [OF n(1), of None sample_lib]
    redirect_back [OF n(1), of "Some (''/a'' @ CHR 0x0A # ''b'')" sample_lib]
    h m n
  show ?thesis by simp
qed

text \<open>
  The claim C9 as it is written fails once the headers have been sent: no Location
  header is set and the status stays 404.
\<close>

theorem redirect_after_flush_counterexample:
  "ctx_get ''Referrer'' flushed_ctx = ''http://x''
   \<and> or_empty (ctx_accepts sample_lib [''html''] flushed_ctx) \<noteq> []
   \<and> map_sum id (header_of ''location'') (redirect sample_lib ''back'' None flushed_ctx) = Inr None
   \<and> map_sum id statusCode (redirect sample_lib ''back'' None flushed_ctx) = Inr 404"
proof -
  have sent: "headersSent flushed_ctx" by (simp add: flushed_ctx_def)
  have r: "ctx_get ''Referrer'' flushed_ctx = ''http://x''"
    by (simp add: ctx_get_def req_get_def or_empty_def flushed_ctx_def fresh_ctx_def)
  then have t: "back_target None flushed_ctx = ''http://x''"
    by (simp add: back_target_def)
  have a: "or_empty (ctx_accepts sample_lib [''html''] flushed_ctx) \<noteq> []"
    by (simp add: ctx_accepts_def or_empty_def flushed_ctx_def fresh_ctx_def sample_lib_def)
  have c1: "set_checked ''Location'' (HStr ''http://x'') flushed_ctx = Inr flushed_ctx"
    using sent by (simp add: set_checked_def)
  have c2: "set_type sample_lib ''text/html; charset=utf-8'' flushed_ctx = flushed_ctx"
    using sent by (simp add: set_type_def set_field_def remove_field_def split: option.splits)
  have st: "\<not> redirect_code sample_lib (statusCode flushed_ctx)"
    by (simp add: flushed_ctx_def fresh_ctx_def sample_lib_def)
  obtain c' where c': "set_body sample_lib
        (BString (''Redirecting to <a href='' @ CHR 0x22 # escape sample_lib ''http://x''
                   @ CHR 0x22 # ''>'' @ escape sample_lib ''http://x'' @ ''</a>.'')) flushed_ctx
        = Inr c'"
      "statusCode c' = (if explicitStatus flushed_ctx \<or> headersSent flushed_ctx
                        then statusCode flushed_ctx else 200)"
      "header_of ''location'' c' = header_of ''location'' flushed_ctx"
    by (rule set_body_string_facts)
  have "redirect sample_lib ''back'' None flushed_ctx = Inr c'"
    using t a c1 c2 st sent c'(1)
    by (simp add: redirect_def Let_def set_status_sent)
  with c' sent r a show ?thesis
    by (simp add: header_of_def flushed_ctx_def fresh_ctx_def)
qed

text \<open>
  C10. When the bypass flag is set (\<open>ctx.respond === false\<close>) or the response is not
  writable, the terminal respond step returns and leaves the whole context as it is:
  status, headers, body, and what has been written to the transport response.
\<close>

theorem respond_bypass:
  "respond_flag c = Some False \<or> \<not> writable c \<Longrightarrow> respond L c = Inr c"
  by (auto simp: respond_def)

theorem respond_bypass_witness:
  "\<not> writable finished_ctx \<and> respond sample_lib finished_ctx = Inr finished_ctx
   \<and> respond sample_lib (fresh_ctx\<lparr>respond_flag := Some False\<rparr>)
       = Inr (fresh_ctx\<lparr>respond_flag := Some False\<rparr>)"
proof -
  have h: "\<not> writable finished_ctx"
    by (simp add: writable_def finished_ctx_def)
  have g: "respond_flag (fresh_ctx\<lparr>respond_flag := Some False\<rparr>) = Some False"
    by simp
  from respond_bypass [of finished_ctx sample_lib]
    respond_bypass [of "fresh_ctx\<lparr>respond_flag := Some False\<rparr>" sample_lib] h g
  show ?thesis by simp
qed

end
